theory Spec2Isabelle
  imports Main "HOL-Library.Word" "HOL-Library.AList"
begin

section \<open>Strings as the service uses them\<close>

text \<open>
  JavaScript strings are modelled as \<open>string\<close> (a list of characters). The functions below
  are the String methods that \<open>liblibai.ts\<close> calls: \<open>startsWith\<close>, \<open>includes\<close> (here
  \<open>includesStr\<close>), \<open>split\<close>, \<open>toLowerCase\<close> (on the ASCII letters), and the three
  shapes of \<open>replace\<close> the file uses.
\<close>

fun startsWith :: "string \<Rightarrow> string \<Rightarrow> bool" where
  "startsWith s [] = True"
| "startsWith [] (p # ps) = False"
| "startsWith (c # cs) (p # ps) = (c = p \<and> startsWith cs ps)"

fun includesStr :: "string \<Rightarrow> string \<Rightarrow> bool" where
  "includesStr [] p = (p = [])"
| "includesStr (c # cs) p = (startsWith (c # cs) p \<or> includesStr cs p)"

text \<open>\<open>s.split(d)\<close> for a one-character separator: never the empty array.\<close>

fun split :: "char \<Rightarrow> string \<Rightarrow> string list" where
  "split d [] = [] # []"
| "split d (c # cs) =
     (if c = d then [] # split d cs
      else (case split d cs of [] \<Rightarrow> [c] # [] | w # ws \<Rightarrow> (c # w) # ws))"

text \<open>\<open>arr.pop()\<close> and \<open>arr[0]\<close>: \<open>None\<close> is JavaScript's \<open>undefined\<close>.\<close>

definition pop :: "'a list \<Rightarrow> 'a option" where
  "pop xs = (if xs = [] then None else Some (last xs))"

definition first :: "'a list \<Rightarrow> 'a option" where
  "first xs = (case xs of [] \<Rightarrow> None | x # _ \<Rightarrow> Some x)"

definition toLowerChar :: "char \<Rightarrow> char" where
  "toLowerChar c =
     (case map_of (zip ''ABCDEFGHIJKLMNOPQRSTUVWXYZ'' ''abcdefghijklmnopqrstuvwxyz'') c of
        None \<Rightarrow> c
      | Some l \<Rightarrow> l)"

definition toLowerCase :: "string \<Rightarrow> string" where
  "toLowerCase s = map toLowerChar s"

text \<open>\<open>s.replace(/x/g, rep)\<close> for a pattern that is one literal character.\<close>

definition replaceAll :: "char \<Rightarrow> string \<Rightarrow> string \<Rightarrow> string" where
  "replaceAll x rep s = concat (map (\<lambda>c. if c = x then rep else [c]) s)"

text \<open>
  \<open>s.replace(/=+$/, "")\<close>: the regular expression is tried at each position from the left;
  it matches at the first position from which the rest of the string is a non-empty run of
  \<open>=\<close>, and that match is deleted.
\<close>

fun replaceTrailingEquals :: "string \<Rightarrow> string" where
  "replaceTrailingEquals [] = []"
| "replaceTrailingEquals (c # cs) =
     (if list_all (\<lambda>x. x = CHR ''='') (c # cs) then [] else c # replaceTrailingEquals cs)"

text \<open>\<open>s.replace(pat, rep)\<close> for a string pattern: only the first occurrence.\<close>

fun replaceFirst :: "string \<Rightarrow> string \<Rightarrow> string \<Rightarrow> string" where
  "replaceFirst pat rep [] = (if pat = [] then rep else [])"
| "replaceFirst pat rep (c # cs) =
     (if startsWith (c # cs) pat then rep @ drop (length pat) (c # cs)
      else c # replaceFirst pat rep cs)"

text \<open>
  A number in a template literal. \<open>Date.now()\<close> and the other numbers printed by the file
  are integers of magnitude below \<open>10^21\<close>, which JavaScript prints in plain decimal.
\<close>

definition digitChar :: "nat \<Rightarrow> char" where
  "digitChar d = ''0123456789'' ! d"

fun digits :: "nat \<Rightarrow> string" where
  "digits n = (if n < 10 then [digitChar n] else digits (n div 10) @ [digitChar (n mod 10)])"

declare digits.simps [simp del]

definition numberToString :: "int \<Rightarrow> string" where
  "numberToString i = (if i < 0 then CHR ''-'' # digits (nat (- i)) else digits (nat i))"

section \<open>Signer\<close>

text \<open>
  \<open>CryptoJS.enc.Base64.stringify\<close>: each group of three bytes is a 24-bit triplet read as
  four 6-bit indices into the map; a final group of one or two bytes gives two or three
  characters and is padded with \<open>=\<close> to a multiple of four.
\<close>

definition base64Map :: string where
  "base64Map = ''ABCDEFGHIJKLMNOPQRSTUVWXYZabcdefghijklmnopqrstuvwxyz0123456789+/''"

definition base64Char :: "nat \<Rightarrow> nat \<Rightarrow> char" where
  "base64Char triplet j = base64Map ! ((triplet div 64 ^ (3 - j)) mod 64)"

fun base64Stringify :: "8 word list \<Rightarrow> string" where
  "base64Stringify [] = []"
| "base64Stringify [b1] =
     (let t = unat b1 * 65536 in [base64Char t 0, base64Char t 1] @ ''=='')"
| "base64Stringify [b1, b2] =
     (let t = unat b1 * 65536 + unat b2 * 256
      in [base64Char t 0, base64Char t 1, base64Char t 2] @ ''='')"
| "base64Stringify (b1 # b2 # b3 # bs) =
     (let t = unat b1 * 65536 + unat b2 * 256 + unat b3
      in [base64Char t 0, base64Char t 1, base64Char t 2, base64Char t 3]
         @ base64Stringify bs)"

text \<open>
  \<open>CryptoJS.HmacSHA1(message, key)\<close> is a function of the library, not of this repository:
  it is a parameter \<open>hmacSHA1\<close> of the model, from the message and the key to the bytes of
  the digest. \<open>Date.now()\<close> and \<open>generateNonce(16)\<close> are inputs: the \<open>entropy\<close> of one call.
\<close>

type_synonym hmac = "string \<Rightarrow> string \<Rightarrow> 8 word list"

record service =
  apiKey :: string
  apiSecret :: string
  baseURL :: string
  proxyURL :: string

record entropy =
  now :: int
  nonce :: string

record url_signature =
  signature :: string
  timestamp :: int
  signatureNonce :: string

definition ossBaseUrl :: string where
  "ossBaseUrl = ''https://liblibai-airship-temp.oss-cn-beijing.aliyuncs.com''"

definition generateUrlSignature :: "hmac \<Rightarrow> service \<Rightarrow> entropy \<Rightarrow> string \<Rightarrow> url_signature" where
  "generateUrlSignature hmacSHA1 svc ent path =
     (let timestamp = now ent;
          signatureNonce = nonce ent;
          str = path @ ''&'' @ numberToString timestamp @ ''&'' @ signatureNonce;
          hash = base64Stringify (hmacSHA1 str (apiSecret svc));
          signature =
            replaceTrailingEquals (replaceAll (CHR ''/'') ''_'' (replaceAll (CHR ''+'') ''-'' hash))
      in \<lparr>signature = signature, timestamp = timestamp, signatureNonce = signatureNonce\<rparr>)"

definition buildSignatureParams :: "hmac \<Rightarrow> service \<Rightarrow> entropy \<Rightarrow> string \<Rightarrow> string" where
  "buildSignatureParams hmacSHA1 svc ent path =
     (let s = generateUrlSignature hmacSHA1 svc ent path
      in ''AccessKey='' @ apiKey svc @ ''&Signature='' @ signature s
         @ ''&Timestamp='' @ numberToString (timestamp s)
         @ ''&SignatureNonce='' @ signatureNonce s)"

text \<open>
  The encoding as the specification words it: replace \<open>+\<close> by \<open>-\<close> and \<open>/\<close> by \<open>_\<close>
  character by character, then strip the trailing \<open>=\<close> padding.
\<close>

definition spec_urlSafe :: "string \<Rightarrow> string" where
  "spec_urlSafe s =
     rev (dropWhile (\<lambda>c. c = CHR ''='')
       (rev (map (\<lambda>c. if c = CHR ''+'' then CHR ''-'' else if c = CHR ''/'' then CHR ''_'' else c) s)))"

definition urlSafeAlphabet :: string where
  "urlSafeAlphabet = ''ABCDEFGHIJKLMNOPQRSTUVWXYZabcdefghijklmnopqrstuvwxyz0123456789_-''"

section \<open>Requests, replies and errors\<close>

text \<open>
  Every signed call is one \<open>axios.post\<close> to the proxy with the body
  \<open>{path, signatureParams, data}\<close>. The network is a parameter of the model: a function
  from the request to the reply. A reply is either a rejected promise (an Error with its
  message) or the body \<open>{code, msg, data}\<close>; a body without \<open>code\<close> behaves as a non-zero
  code.
\<close>

record 'a proxy_request =
  post_url :: string
  post_path :: string
  post_signatureParams :: string
  post_data :: 'a

datatype 'd axios_reply =
    AxiosReject string
  | AxiosData int string 'd

text \<open>
  The errors thrown by the upload and submission paths, one constructor for each
  \<open>throw\<close> (several messages of the source are not ASCII, so they are named, with the line
  that throws them): line 279, line 218, line 97 with the remote message, line 196 with the
  status and the response text, line 314 with the remote message, and a rejected
  \<open>axios.post\<close> or \<open>fetch\<close> with the library's message, which the \<open>catch\<close> blocks log
  and rethrow.
\<close>

datatype error =
    InvalidImageUrlFormat
  | FileTypeNotAllowed
  | GetSignatureFailed string
  | UploadFailed int string
  | GenerationFailed string
  | RequestRejected string

section \<open>Uploader\<close>

record upload_signature_request =
  name :: string
  extension :: string

record signature_data =
  key :: string
  policy :: string
  xOssSignature :: string
  xOssCredential :: string
  xOssDate :: string
  xOssExpires :: int
  xOssSignatureVersion :: string
  postUrl :: string

record oss_form =
  form_url :: string
  form_fields :: "(string \<times> string) list"
  form_file_name :: string
  form_file_type :: string
  form_file :: "8 word list"

datatype fetch_reply =
    FetchReject string
  | FetchResponse int string

datatype net_call =
    SignaturePost "upload_signature_request proxy_request"
  | OssPost oss_form

record upload_result =
  uploaded_key :: string
  uploaded_ossBaseUrl :: string

definition getUploadSignature ::
  "hmac \<Rightarrow> service \<Rightarrow> entropy
   \<Rightarrow> (upload_signature_request proxy_request \<Rightarrow> signature_data axios_reply)
   \<Rightarrow> string \<Rightarrow> string \<Rightarrow> net_call list \<times> (error + signature_data)" where
  "getUploadSignature hmacSHA1 svc ent post filename ext =
     (let path = ''/api/generate/upload/signature'';
          signatureParams = buildSignatureParams hmacSHA1 svc ent path;
          request = \<lparr>post_url = proxyURL svc, post_path = path,
                     post_signatureParams = signatureParams,
                     post_data = \<lparr>name = filename, extension = ext\<rparr>\<rparr>
      in ([SignaturePost request],
          (case post request of
             AxiosReject m \<Rightarrow> Inl (RequestRejected m)
           | AxiosData code msg signatureData \<Rightarrow>
               if code \<noteq> 0 then Inl (GetSignatureFailed msg)
               else if postUrl signatureData \<noteq> [] then
                 Inr (signatureData\<lparr>postUrl :=
                        replaceFirst ''https://liblibai-airship-temp.oss-cn-beijing.aliyuncs.com''
                          ''/oss-proxy'' (postUrl signatureData)\<rparr>)
               else Inr signatureData)))"

definition uploadToOSS ::
  "(oss_form \<Rightarrow> fetch_reply) \<Rightarrow> 8 word list \<Rightarrow> signature_data \<Rightarrow> string
   \<Rightarrow> net_call list \<times> (error + string)" where
  "uploadToOSS fetch fileBuffer signatureData filename =
     (let fields =
            [(''key'', key signatureData),
             (''policy'', policy signatureData),
             (''x-oss-signature'', xOssSignature signatureData),
             (''x-oss-credential'', xOssCredential signatureData),
             (''x-oss-date'', xOssDate signatureData),
             (''x-oss-expires'', numberToString (xOssExpires signatureData)),
             (''x-oss-signature-version'', xOssSignatureVersion signatureData)];
          ext = map_option toLowerCase (pop (split (CHR ''.'') filename));
          contentType =
            (if ext = Some ''jpg'' \<or> ext = Some ''jpeg'' then ''image/jpeg''
             else if ext = Some ''png'' then ''image/png''
             else ''application/octet-stream'');
          form = \<lparr>form_url = postUrl signatureData, form_fields = fields,
                  form_file_name = filename, form_file_type = contentType,
                  form_file = fileBuffer\<rparr>
      in ([OssPost form],
          (case fetch form of
             FetchReject m \<Rightarrow> Inl (RequestRejected m)
           | FetchResponse status responseText \<Rightarrow>
               if 200 \<le> status \<and> status < 300 then Inr (key signatureData)
               else Inl (UploadFailed status responseText))))"

definition uploadFile ::
  "hmac \<Rightarrow> service \<Rightarrow> entropy
   \<Rightarrow> (upload_signature_request proxy_request \<Rightarrow> signature_data axios_reply)
   \<Rightarrow> (oss_form \<Rightarrow> fetch_reply) \<Rightarrow> 8 word list \<Rightarrow> string
   \<Rightarrow> net_call list \<times> (error + upload_result)" where
  "uploadFile hmacSHA1 svc ent post fetch fileBuffer filename =
     (let ext =
            (case map_option toLowerCase (pop (split (CHR ''.'') filename)) of
               None \<Rightarrow> ''png''
             | Some e \<Rightarrow> if e = [] then ''png'' else e)
      in if ext \<notin> set [''jpg'', ''jpeg'', ''png''] then ([], Inl FileTypeNotAllowed)
         else
           let normalizedExtension = (if ext = ''jpeg'' then ''jpg'' else ext);
               filenameWithoutExt =
                 (case first (split (CHR ''.'') filename) of
                    None \<Rightarrow> ''image''
                  | Some b \<Rightarrow> if b = [] then ''image'' else b)
           in (case getUploadSignature hmacSHA1 svc ent post filenameWithoutExt normalizedExtension of
                 (calls1, Inl e) \<Rightarrow> (calls1, Inl e)
               | (calls1, Inr signatureData) \<Rightarrow>
                   let uploadFilename = filenameWithoutExt @ ''.'' @ normalizedExtension
                   in (case uploadToOSS fetch fileBuffer signatureData uploadFilename of
                         (calls2, Inl e) \<Rightarrow> (calls1 @ calls2, Inl e)
                       | (calls2, Inr k) \<Rightarrow>
                           (calls1 @ calls2,
                            Inr \<lparr>uploaded_key = k, uploaded_ossBaseUrl = ossBaseUrl\<rparr>))))"

section \<open>JobSubmitter\<close>

text \<open>
  The workflow parameters are untyped (\<open>[key: string]: any\<close>): a value is one of
  JavaScript's, an object being the list of its entries. Reading a property that is not
  there gives \<open>undefined\<close>.
\<close>

datatype jsval =
    JUndefined
  | JNull
  | JBool bool
  | JNum int
  | JStr string
  | JArr "jsval list"
  | JObj "(string \<times> jsval) list"

fun truthy :: "jsval \<Rightarrow> bool" where
  "truthy JUndefined = False"
| "truthy JNull = False"
| "truthy (JBool b) = b"
| "truthy (JNum n) = (n \<noteq> 0)"
| "truthy (JStr s) = (s \<noteq> [])"
| "truthy (JArr xs) = True"
| "truthy (JObj kvs) = True"

text \<open>
  \<open>v.inputs\<close>, \<open>v.image\<close>, \<open>v.key\<close>: only an object can have an own property of these
  names. \<open>getProp\<close> is only applied to a value already found truthy, so never to
  \<open>undefined\<close> or \<open>null\<close>.
\<close>

fun getProp :: "jsval \<Rightarrow> string \<Rightarrow> jsval" where
  "getProp (JObj kvs) k = (case map_of kvs k of None \<Rightarrow> JUndefined | Some v \<Rightarrow> v)"
| "getProp v k = JUndefined"

fun hasProp :: "string \<Rightarrow> jsval \<Rightarrow> bool" where
  "hasProp k (JObj kvs) = (map_of kvs k \<noteq> None)"
| "hasProp k v = False"

fun setProp :: "jsval \<Rightarrow> string \<Rightarrow> jsval \<Rightarrow> jsval" where
  "setProp (JObj kvs) k v = JObj (AList.update k v kvs)"
| "setProp w k v = w"

fun typeofString :: "jsval \<Rightarrow> bool" where
  "typeofString (JStr s) = True"
| "typeofString v = False"

fun typeofObject :: "jsval \<Rightarrow> bool" where
  "typeofObject JNull = True"
| "typeofObject (JArr xs) = True"
| "typeofObject (JObj kvs) = True"
| "typeofObject v = False"

record comfy_params =
  templateUuid :: string
  generateParams :: "(string \<times> jsval) list"

definition node190 :: "comfy_params \<Rightarrow> jsval" where
  "node190 params =
     (case map_of (generateParams params) ''190'' of None \<Rightarrow> JUndefined | Some v \<Rightarrow> v)"

text \<open>\<open>params.generateParams["190"].inputs.image\<close>, read through the same guards as line 263.\<close>

definition image190 :: "comfy_params \<Rightarrow> jsval" where
  "image190 params =
     (if truthy (node190 params) \<and> truthy (getProp (node190 params) ''inputs'')
      then getProp (getProp (node190 params) ''inputs'') ''image''
      else JUndefined)"

text \<open>Lines 263 to 292 of \<open>runComfy\<close>: the image reference of node 190 is made a full URL.\<close>

definition rewriteImage :: "comfy_params \<Rightarrow> error + comfy_params" where
  "rewriteImage params =
     (if truthy (node190 params) \<and> truthy (getProp (node190 params) ''inputs'')
         \<and> truthy (getProp (getProp (node190 params) ''inputs'') ''image'')
      then
        (let imageUrl0 = getProp (getProp (node190 params) ''inputs'') ''image'';
             extracted =
               (if \<not> typeofString imageUrl0 then
                  (if truthy imageUrl0 \<and> typeofObject imageUrl0 \<and> hasProp ''key'' imageUrl0
                   then Inr (getProp imageUrl0 ''key'')
                   else Inl InvalidImageUrlFormat)
                else Inr imageUrl0)
         in (case extracted of
               Inl e \<Rightarrow> Inl e
             | Inr imageUrl1 \<Rightarrow>
                 (let imageUrl =
                        (case imageUrl1 of
                           JStr s \<Rightarrow>
                             if \<not> startsWith s ''http'' then JStr (ossBaseUrl @ ''/'' @ s)
                             else JStr s
                         | v \<Rightarrow> v);
                      inputs = setProp (getProp (node190 params) ''inputs'') ''image'' imageUrl;
                      node = setProp (node190 params) ''inputs'' inputs
                  in Inr (params\<lparr>generateParams :=
                            AList.update ''190'' node (generateParams params)\<rparr>))))
      else Inr params)"

definition runComfy ::
  "hmac \<Rightarrow> service \<Rightarrow> entropy
   \<Rightarrow> (comfy_params proxy_request \<Rightarrow> string axios_reply)
   \<Rightarrow> comfy_params \<Rightarrow> comfy_params proxy_request list \<times> (error + string)" where
  "runComfy hmacSHA1 svc ent post params0 =
     (case rewriteImage params0 of
        Inl e \<Rightarrow> ([], Inl e)
      | Inr params \<Rightarrow>
          (let path = ''/api/generate/comfyui/app'';
               signatureParams = buildSignatureParams hmacSHA1 svc ent path;
               request = \<lparr>post_url = proxyURL svc, post_path = path,
                          post_signatureParams = signatureParams, post_data = params\<rparr>
           in ([request],
               (case post request of
                  AxiosReject m \<Rightarrow> Inl (RequestRejected m)
                | AxiosData code msg generateUuid \<Rightarrow>
                    if code \<noteq> 0 then Inl (GenerationFailed msg) else Inr generateUuid))))"

section \<open>JobPoller\<close>

record image =
  imageUrl :: string

record status_payload =
  generateStatus :: int
  images :: "image list option"
  failReason :: "string option"

definition PENDING :: int where "PENDING = 1"
definition PROCESSING :: int where "PROCESSING = 2"
definition GENERATED :: int where "GENERATED = 3"
definition AUDITING :: int where "AUDITING = 4"
definition SUCCESS :: int where "SUCCESS = 5"
definition FAILED :: int where "FAILED = 6"
definition TIMEOUT :: int where "TIMEOUT = 7"

text \<open>
  \<open>getComfyStatus\<close> as a function of the reply to its request: \<open>Inl\<close> is the message of
  the Error it throws (its \<open>catch\<close> logs and rethrows), \<open>Inr\<close> the status payload.
\<close>

definition getComfyStatus :: "status_payload axios_reply \<Rightarrow> string + status_payload" where
  "getComfyStatus reply =
     (case reply of
        AxiosReject m \<Rightarrow> Inl m
      | AxiosData code msg d \<Rightarrow> if code \<noteq> 0 then Inl (''Query failed: '' @ msg) else Inr d)"

text \<open>
  One pass through the \<open>try\<close> block of \<open>waitAppResult\<close>: it returns the URL of the first
  image, throws, or reaches the wait at the end of the block.
\<close>

datatype try_result =
    Returned string
  | Thrown string
  | Waited

definition tryBlock :: "status_payload axios_reply \<Rightarrow> try_result" where
  "tryBlock reply =
     (case getComfyStatus reply of
        Inl m \<Rightarrow> Thrown m
      | Inr status \<Rightarrow>
          if generateStatus status = SUCCESS then
            (case images status of
               Some (img # rest) \<Rightarrow> Returned (imageUrl img)
             | _ \<Rightarrow> Thrown ''No images found in successful generation result'')
          else if generateStatus status \<in> set [FAILED, TIMEOUT] then
            Thrown (''Image generation ''
                    @ (if generateStatus status = FAILED then ''failed'' else ''timed out'')
                    @ '': ''
                    @ (case failReason status of
                         None \<Rightarrow> ''Unknown reason''
                       | Some r \<Rightarrow> if r = [] then ''Unknown reason'' else r))
          else Waited)"

text \<open>
  The promise returned by \<open>waitAppResult\<close> resolves with a URL or rejects with an Error.
  A run is its outcome together with the attempts at which a status query was sent, in
  order. The reply to the query of attempt \<open>k\<close> is \<open>net k\<close>. The pauses between attempts
  have no other effect and are not represented.
\<close>

datatype poll_outcome =
    Resolved string
  | Rejected string

function waitLoop ::
  "(int \<Rightarrow> status_payload axios_reply) \<Rightarrow> int \<Rightarrow> int \<Rightarrow> poll_outcome \<times> int list" where
  "waitLoop net maxAttempts attempt =
     (if attempt \<le> maxAttempts then
        (case tryBlock (net attempt) of
           Returned url \<Rightarrow> (Resolved url, [attempt])
         | Thrown m \<Rightarrow>
             if includesStr m ''failed'' \<or> includesStr m ''timed out'' then
               (Rejected m, [attempt])
             else if attempt = maxAttempts then (Rejected m, [attempt])
             else (case waitLoop net maxAttempts (attempt + 1) of
                     (r, qs) \<Rightarrow> (r, attempt # qs))
         | Waited \<Rightarrow>
             (case waitLoop net maxAttempts (attempt + 1) of
                (r, qs) \<Rightarrow> (r, attempt # qs)))
      else (Rejected ''Max polling attempts reached'', []))"
  by pat_completeness auto
termination
  by (relation "measure (\<lambda>(net, maxAttempts, attempt). nat (maxAttempts + 1 - attempt))") auto

declare waitLoop.simps [simp del]

definition waitAppResult ::
  "(int \<Rightarrow> status_payload axios_reply) \<Rightarrow> int \<Rightarrow> poll_outcome \<times> int list" where
  "waitAppResult net maxAttempts = waitLoop net maxAttempts 1"

section \<open>Notions used by the properties\<close>

text \<open>The message of the Error thrown at line 405 for a Failed or Timeout payload.\<close>

definition failureMessage :: "status_payload \<Rightarrow> string" where
  "failureMessage status =
     ''Image generation '' @ (if generateStatus status = FAILED then ''failed'' else ''timed out'')
       @ '': '' @ (case failReason status of None \<Rightarrow> ''Unknown reason''
                    | Some r \<Rightarrow> if r = [] then ''Unknown reason'' else r)"

text \<open>
  A poll reaches a terminal state when its reply is a status payload (code 0) whose status
  is Success, Failed or Timeout.
\<close>

definition terminalReply :: "status_payload axios_reply \<Rightarrow> bool" where
  "terminalReply reply =
     (case getComfyStatus reply of
        Inl m \<Rightarrow> False
      | Inr status \<Rightarrow> generateStatus status \<in> set [SUCCESS, FAILED, TIMEOUT])"

definition noTerminalPoll :: "(int \<Rightarrow> status_payload axios_reply) \<Rightarrow> int \<Rightarrow> bool" where
  "noTerminalPoll net maxAttempts = list_all (\<lambda>k. \<not> terminalReply (net k)) [1..maxAttempts]"

text \<open>
  What a run that uses up every attempt is rejected with: the error of the last status
  query when that query failed, the loop's own message otherwise.
\<close>

definition lastAttemptError :: "(int \<Rightarrow> status_payload axios_reply) \<Rightarrow> int \<Rightarrow> string" where
  "lastAttemptError net maxAttempts =
     (if 1 \<le> maxAttempts then
        (case getComfyStatus (net maxAttempts) of
           Inl m \<Rightarrow> m
         | Inr status \<Rightarrow> ''Max polling attempts reached'')
      else ''Max polling attempts reached'')"

fun isResolved :: "poll_outcome \<Rightarrow> bool" where
  "isResolved (Resolved u) = True"
| "isResolved (Rejected m) = False"

text \<open>Concrete networks, for the runs evaluated below.\<close>

definition netFailedAtTwo :: "int \<Rightarrow> status_payload axios_reply" where
  "netFailedAtTwo k =
     (if k = 2 then
        AxiosData 0 ''ok''
          \<lparr>generateStatus = 6, images = None, failReason = Some ''NSFW content''\<rparr>
      else AxiosData 0 ''ok'' \<lparr>generateStatus = 2, images = None, failReason = None\<rparr>)"

definition netEmptySuccessThenImage :: "int \<Rightarrow> status_payload axios_reply" where
  "netEmptySuccessThenImage k =
     (if k = 1 then
        AxiosData 0 ''ok'' \<lparr>generateStatus = 5, images = Some [], failReason = None\<rparr>
      else
        AxiosData 0 ''ok''
          \<lparr>generateStatus = 5, images = Some [\<lparr>imageUrl = ''https://cdn.example/out.png''\<rparr>],
             failReason = None\<rparr>)"

definition netBadGatewayUntil60 :: "int \<Rightarrow> status_payload axios_reply" where
  "netBadGatewayUntil60 k =
     (if k < 60 then AxiosReject ''Request failed with status code 502''
      else
        AxiosData 0 ''ok''
          \<lparr>generateStatus = 5, images = Some [\<lparr>imageUrl = ''https://cdn.example/out.png''\<rparr>],
             failReason = None\<rparr>)"

definition netBusyUntil60 :: "int \<Rightarrow> status_payload axios_reply" where
  "netBusyUntil60 k =
     (if k < 60 then AxiosData 1 ''busy'' \<lparr>generateStatus = 0, images = None, failReason = None\<rparr>
      else
        AxiosData 0 ''ok''
          \<lparr>generateStatus = 5, images = Some [\<lparr>imageUrl = ''https://cdn.example/out.png''\<rparr>],
             failReason = None\<rparr>)"

definition netNetworkErrorUntil60 :: "int \<Rightarrow> status_payload axios_reply" where
  "netNetworkErrorUntil60 k =
     (if k < 60 then AxiosReject ''Network Error''
      else
        AxiosData 0 ''ok''
          \<lparr>generateStatus = 5, images = Some [\<lparr>imageUrl = ''https://cdn.example/out.png''\<rparr>],
             failReason = None\<rparr>)"

definition netNetworkError :: "int \<Rightarrow> status_payload axios_reply" where
  "netNetworkError k = AxiosReject ''Network Error''"

definition netAlwaysProcessing :: "int \<Rightarrow> status_payload axios_reply" where
  "netAlwaysProcessing k =
     AxiosData 0 ''ok'' \<lparr>generateStatus = 2, images = None, failReason = None\<rparr>"

text \<open>
  The final segment of a file name, lower-cased: what \<open>uploadFile\<close> reads as the
  extension, before its default.
\<close>

definition finalSegment :: "string \<Rightarrow> string" where
  "finalSegment filename = toLowerCase (last (split (CHR ''.'') filename))"

text \<open>What a list of network calls asked for: observers used to state the properties.\<close>

fun requestedExtensions :: "net_call list \<Rightarrow> string list" where
  "requestedExtensions [] = []"
| "requestedExtensions (SignaturePost r # calls) = extension (post_data r) # requestedExtensions calls"
| "requestedExtensions (OssPost f # calls) = requestedExtensions calls"

fun uploadedFiles :: "net_call list \<Rightarrow> (string \<times> string) list" where
  "uploadedFiles [] = []"
| "uploadedFiles (SignaturePost r # calls) = uploadedFiles calls"
| "uploadedFiles (OssPost f # calls) = (form_file_name f, form_file_type f) # uploadedFiles calls"

text \<open>
  The instance created at the end of the file, and stand-ins for the inputs of a concrete
  run: a clock reading and a nonce, a digest (any function will do: the properties are
  proved for every one), and a remote side that accepts every request.
\<close>

definition liblibAIService :: service where
  "liblibAIService =
     \<lparr>apiKey = ''LEwIdqsvxwYqVBixl77oMA'', apiSecret = ''vYTzHMKn0NTFmswXCq_MoVnAmDpL6ybA'',
      baseURL = ''https://openapi.liblibai.cloud'', proxyURL = ''/api/liblibai''\<rparr>"

definition fixedEntropy :: entropy where
  "fixedEntropy = \<lparr>now = 1700000000000, nonce = ''A1b2C3d4E5f6G7h8''\<rparr>"

definition fixedDigest :: hmac where
  "fixedDigest message secret = [0xfb, 0xff, 0xfe, 0x4d]"

definition signatureGranted :: "upload_signature_request proxy_request \<Rightarrow> signature_data axios_reply" where
  "signatureGranted request =
     AxiosData 0 ''ok''
       \<lparr>key = ''tmp/0001'', policy = ''p'', xOssSignature = ''s'', xOssCredential = ''c'',
        xOssDate = ''d'', xOssExpires = 600, xOssSignatureVersion = ''v'',
        postUrl = ''https://liblibai-airship-temp.oss-cn-beijing.aliyuncs.com''\<rparr>"

definition ossStored :: "oss_form \<Rightarrow> fetch_reply" where
  "ossStored form = FetchResponse 204 []"

definition comfyAccepted :: "comfy_params proxy_request \<Rightarrow> string axios_reply" where
  "comfyAccepted request = AxiosData 0 ''ok'' ''job-1''"

definition paramsWithImage :: "string \<Rightarrow> comfy_params" where
  "paramsWithImage s =
     \<lparr>templateUuid = ''t'',
      generateParams =
        [(''workflowUuid'', JStr ''w''),
         (''190'', JObj [(''class_type'', JStr ''LoadImage''), (''inputs'', JObj [(''image'', JStr s)])])]\<rparr>"

text \<open>
  Whether every authorization request in a list of calls was granted: the reply of the
  remote side to it is a body with code 0.
\<close>

fun authorizationGranted ::
  "(upload_signature_request proxy_request \<Rightarrow> signature_data axios_reply) \<Rightarrow> net_call list \<Rightarrow> bool" where
  "authorizationGranted post [] = True"
| "authorizationGranted post (SignaturePost r # calls) =
     ((case post r of AxiosReject m \<Rightarrow> False | AxiosData code msg sd \<Rightarrow> code = 0)
      \<and> authorizationGranted post calls)"
| "authorizationGranted post (OssPost f # calls) = authorizationGranted post calls"

text \<open>
  The canonical extension of an accepted file name, as the specification words it: the
  aliases \<open>jpeg\<close> and \<open>jpg\<close> are one format, written \<open>jpg\<close>; the other accepted format
  is \<open>png\<close>.
\<close>

definition canonicalExtension :: "string \<Rightarrow> string" where
  "canonicalExtension filename =
     (if finalSegment filename \<in> set [''jpg'', ''jpeg''] then ''jpg'' else ''png'')"

definition submittedImages :: "comfy_params proxy_request list \<Rightarrow> jsval list" where
  "submittedImages requests = map (\<lambda>r. image190 (post_data r)) requests"

text \<open>The name under which \<open>uploadFile\<close> uploads: the first segment of the file name, or \<open>image\<close>.\<close>

definition baseName :: "string \<Rightarrow> string" where
  "baseName filename =
     (case first (split (CHR ''.'') filename) of
        None \<Rightarrow> ''image''
      | Some b \<Rightarrow> if b = [] then ''image'' else b)"

section \<open>Signer: properties\<close>

lemma replaceTrailingEquals_rev:
  "replaceTrailingEquals s = rev (dropWhile (\<lambda>c. c = CHR ''='') (rev s))"
proof (induction s)
  case Nil
  show ?case by simp
next
  case (Cons c cs)
  show ?case
  proof (cases "list_all (\<lambda>x. x = CHR ''='') (c # cs)")
    case True
    then have "\<forall>x\<in>set (rev (c # cs)). x = CHR ''=''" by (simp add: list_all_iff)
    then have "dropWhile (\<lambda>c. c = CHR ''='') (rev (c # cs)) = []" by (simp only: dropWhile_eq_Nil_conv)
    with True show ?thesis by simp
  next
    case False
    then have ex: "\<exists>x\<in>set (rev cs @ [c]). \<not> x = CHR ''=''" by (auto simp: list_all_iff)
    have "dropWhile (\<lambda>c. c = CHR ''='') (rev cs @ [c]) = dropWhile (\<lambda>c. c = CHR ''='') (rev cs) @ [c]"
    proof (cases "\<exists>x\<in>set (rev cs). \<not> x = CHR ''=''")
      case True
      then obtain x where "x \<in> set (rev cs)" and "\<not> x = CHR ''=''" by blast
      then show ?thesis by (rule dropWhile_append1)
    next
      case False
      with ex have "c \<noteq> CHR ''=''" by auto
      moreover from False have all: "\<And>x. x \<in> set (rev cs) \<Longrightarrow> x = CHR ''=''" by auto
      then have "dropWhile (\<lambda>c. c = CHR ''='') (rev cs) = []" by (simp only: dropWhile_eq_Nil_conv) blast
      moreover from all have "dropWhile (\<lambda>c. c = CHR ''='') (rev cs @ [c]) = dropWhile (\<lambda>c. c = CHR ''='') [c]"
        by (rule dropWhile_append2)
      ultimately show ?thesis by simp
    qed
    with False Cons show ?thesis by simp
  qed
qed

lemma replace_plus_slash:
  "replaceAll (CHR ''/'') ''_'' (replaceAll (CHR ''+'') ''-'' h)
     = map (\<lambda>c. if c = CHR ''+'' then CHR ''-'' else if c = CHR ''/'' then CHR ''_'' else c) h"
  by (induction h) (simp_all add: replaceAll_def)

lemma urlSafe_refines:
  "replaceTrailingEquals (replaceAll (CHR ''/'') ''_'' (replaceAll (CHR ''+'') ''-'' h)) = spec_urlSafe h"
  by (simp only: replace_plus_slash replaceTrailingEquals_rev spec_urlSafe_def)

text \<open>
  Claim C1. For every path, secret, timestamp and nonce, the signature is the HMAC-SHA1
  digest of the message \<open>path & timestamp & nonce\<close> under the shared secret,
  base64-encoded and made URL-safe as the specification words it (\<open>spec_urlSafe\<close>: \<open>+\<close>
  to \<open>-\<close>, \<open>/\<close> to \<open>_\<close>, trailing \<open>=\<close> stripped); and the parameter string carries the
  access key, that signature, the timestamp and the nonce. The source's two global
  replacements and its regular expression \<open>=+$\<close> are shown equal to the specification's
  wording by \<open>urlSafe_refines\<close>.
\<close>

theorem signer_signature:
  "signature (generateUrlSignature hmacSHA1 svc \<lparr>now = ts, nonce = n\<rparr> path)
     = spec_urlSafe (base64Stringify (hmacSHA1 (path @ ''&'' @ numberToString ts @ ''&'' @ n) (apiSecret svc)))
   \<and> buildSignatureParams hmacSHA1 svc \<lparr>now = ts, nonce = n\<rparr> path
     = ''AccessKey='' @ apiKey svc
       @ ''&Signature='' @ signature (generateUrlSignature hmacSHA1 svc \<lparr>now = ts, nonce = n\<rparr> path)
       @ ''&Timestamp='' @ numberToString ts @ ''&SignatureNonce='' @ n"
  unfolding generateUrlSignature_def buildSignatureParams_def Let_def urlSafe_refines
  by (simp del: append_assoc)

lemma length_base64Map: "length base64Map = 64"
  by (simp add: base64Map_def)

lemma base64Char_in_map: "base64Char t j \<in> set base64Map"
  unfolding base64Char_def by (rule nth_mem) (simp add: length_base64Map)

lemma base64Stringify_shape:
  "\<exists>body pad. base64Stringify bs = body @ pad \<and> set body \<subseteq> set base64Map \<and> (\<forall>c\<in>set pad. c = CHR ''='')"
proof (induction bs rule: base64Stringify.induct)
  case 1
  show ?case by simp
next
  case (2 b1)
  show ?case
    apply (rule exI [of _ "[base64Char (unat b1 * 65536) 0, base64Char (unat b1 * 65536) 1]"])
    apply (rule exI [of _ "''==''"])
    apply (simp add: base64Char_in_map Let_def)
    done
next
  case (3 b1 b2)
  show ?case
    apply (rule exI [of _ "[base64Char (unat b1 * 65536 + unat b2 * 256) 0, base64Char (unat b1 * 65536 + unat b2 * 256) 1, base64Char (unat b1 * 65536 + unat b2 * 256) 2]"])
    apply (rule exI [of _ "''=''"])
    apply (simp add: base64Char_in_map Let_def)
    done
next
  case (4 b1 b2 b3 bs)
  then obtain body pad where h: "base64Stringify bs = body @ pad" "set body \<subseteq> set base64Map"
    "\<forall>c\<in>set pad. c = CHR ''=''" by blast
  let ?t = "unat b1 * 65536 + unat b2 * 256 + unat b3"
  show ?case
    apply (rule exI [of _ "[base64Char ?t 0, base64Char ?t 1, base64Char ?t 2, base64Char ?t 3] @ body"])
    apply (rule exI [of _ pad])
    using h apply (simp add: base64Char_in_map Let_def)
    done
qed

lemma urlSafe_map_char:
  "c \<in> set base64Map \<Longrightarrow>
   (if c = CHR ''+'' then CHR ''-'' else if c = CHR ''/'' then CHR ''_'' else c) \<in> set urlSafeAlphabet"
  by (auto simp: base64Map_def urlSafeAlphabet_def)

lemma eq_not_urlSafe: "CHR ''='' \<notin> set urlSafeAlphabet" "CHR ''+'' \<notin> set urlSafeAlphabet" "CHR ''/'' \<notin> set urlSafeAlphabet"
  by (simp_all add: urlSafeAlphabet_def)

lemma spec_urlSafe_alphabet:
  assumes "set body \<subseteq> set base64Map" and "\<forall>c\<in>set pad. c = CHR ''=''"
  shows "set (spec_urlSafe (body @ pad)) \<subseteq> set urlSafeAlphabet"
proof -
  let ?f = "\<lambda>c. if c = CHR ''+'' then CHR ''-'' else if c = CHR ''/'' then CHR ''_'' else c"
  have pad: "\<And>x. x \<in> set (rev (map ?f pad)) \<Longrightarrow> x = CHR ''=''"
    using assms(2) by auto
  have "dropWhile (\<lambda>c. c = CHR ''='') (rev (map ?f pad) @ rev (map ?f body))
        = dropWhile (\<lambda>c. c = CHR ''='') (rev (map ?f body))"
    using pad by (rule dropWhile_append2)
  then have "spec_urlSafe (body @ pad) = rev (dropWhile (\<lambda>c. c = CHR ''='') (rev (map ?f body)))"
    by (simp add: spec_urlSafe_def)
  moreover have "set (dropWhile (\<lambda>c. c = CHR ''='') (rev (map ?f body))) \<subseteq> set (map ?f body)"
    using set_dropWhileD by fastforce
  moreover have "set (map ?f body) \<subseteq> set urlSafeAlphabet"
  proof
    fix x assume "x \<in> set (map ?f body)"
    then have "x \<in> ?f ` set body" by (simp only: set_map)
    then obtain c where c: "c \<in> set body" and x: "x = ?f c" by (rule imageE)
    from c assms(1) have "c \<in> set base64Map" by blast
    then show "x \<in> set urlSafeAlphabet" unfolding x by (rule urlSafe_map_char)
  qed
  ultimately show ?thesis by auto
qed

text \<open>
  Claim C9. For every path, secret, timestamp and nonce (and every digest the HMAC can
  return), each character of the signature is in the URL-safe alphabet
  \<open>A-Z a-z 0-9 _ -\<close>; the signature has no \<open>+\<close>, no \<open>/\<close>, and no \<open>=\<close> at all, so no
  trailing padding.
\<close>

theorem signature_alphabet:
  "list_all (\<lambda>c. c \<in> set urlSafeAlphabet) (signature (generateUrlSignature hmacSHA1 svc ent path))
   \<and> CHR ''+'' \<notin> set (signature (generateUrlSignature hmacSHA1 svc ent path))
   \<and> CHR ''/'' \<notin> set (signature (generateUrlSignature hmacSHA1 svc ent path))
   \<and> CHR ''='' \<notin> set (signature (generateUrlSignature hmacSHA1 svc ent path))"
proof -
  let ?h = "base64Stringify (hmacSHA1 (path @ ''&'' @ numberToString (now ent) @ ''&'' @ nonce ent) (apiSecret svc))"
  have sig: "signature (generateUrlSignature hmacSHA1 svc ent path) = spec_urlSafe ?h"
    unfolding generateUrlSignature_def Let_def urlSafe_refines by simp
  obtain body pad where "?h = body @ pad" "set body \<subseteq> set base64Map" "\<forall>c\<in>set pad. c = CHR ''=''"
    using base64Stringify_shape by blast
  then have sub: "set (spec_urlSafe ?h) \<subseteq> set urlSafeAlphabet"
    using spec_urlSafe_alphabet by simp
  show ?thesis
    unfolding sig using sub eq_not_urlSafe by (auto simp: list_all_iff)
qed

text \<open>The signer on a concrete call (with the stand-in digest).\<close>

lemma numberToString_example: "numberToString 1700000000000 = ''1700000000000''"
  by (simp add: numberToString_def digits.simps digitChar_def)

lemma base64_example: "base64Stringify [0xfb, 0xff, 0xfe, 0x4d] = ''+//+TQ==''"
  by (simp add: base64Char_def base64Map_def)

lemma signature_example:
  "generateUrlSignature fixedDigest liblibAIService fixedEntropy ''/api/generate/comfy/status''
     = \<lparr>signature = ''-__-TQ'', timestamp = 1700000000000, signatureNonce = ''A1b2C3d4E5f6G7h8''\<rparr>
   \<and> buildSignatureParams fixedDigest liblibAIService fixedEntropy ''/api/generate/comfy/status''
     = ''AccessKey=LEwIdqsvxwYqVBixl77oMA&Signature=-__-TQ&Timestamp=1700000000000&SignatureNonce=A1b2C3d4E5f6G7h8''"
  by (simp add: generateUrlSignature_def buildSignatureParams_def fixedDigest_def fixedEntropy_def
        liblibAIService_def base64_example numberToString_example replaceAll_def Let_def
        del: base64Stringify.simps)

section \<open>JobPoller: properties\<close>

lemma tryBlock_failure:
  assumes "reply = AxiosData 0 msg status"
    and "generateStatus status = FAILED \<or> generateStatus status = TIMEOUT"
  shows "tryBlock reply = Thrown (failureMessage status)"
  using assms
  by (auto simp: tryBlock_def getComfyStatus_def failureMessage_def SUCCESS_def FAILED_def TIMEOUT_def)

lemma failureMessage_keyword:
  assumes "generateStatus status = FAILED \<or> generateStatus status = TIMEOUT"
  shows "includesStr (failureMessage status) ''failed'' \<or> includesStr (failureMessage status) ''timed out''"
  using assms by (auto simp: failureMessage_def FAILED_def TIMEOUT_def)

lemma waitLoop_done:
  "\<not> attempt \<le> maxAttempts \<Longrightarrow>
   waitLoop net maxAttempts attempt = (Rejected ''Max polling attempts reached'', [])"
  by (subst waitLoop.simps) simp

lemma waitLoop_returned:
  "attempt \<le> maxAttempts \<Longrightarrow> tryBlock (net attempt) = Returned u \<Longrightarrow>
   waitLoop net maxAttempts attempt = (Resolved u, [attempt])"
  by (subst waitLoop.simps) simp

lemma waitLoop_thrown_stop:
  "attempt \<le> maxAttempts \<Longrightarrow> tryBlock (net attempt) = Thrown m \<Longrightarrow>
   includesStr m ''failed'' \<or> includesStr m ''timed out'' \<or> attempt = maxAttempts \<Longrightarrow>
   waitLoop net maxAttempts attempt = (Rejected m, [attempt])"
  by (subst waitLoop.simps) auto

lemma waitLoop_thrown_retry:
  "attempt \<le> maxAttempts \<Longrightarrow> tryBlock (net attempt) = Thrown m \<Longrightarrow>
   \<not> includesStr m ''failed'' \<Longrightarrow> \<not> includesStr m ''timed out'' \<Longrightarrow> attempt \<noteq> maxAttempts \<Longrightarrow>
   waitLoop net maxAttempts attempt
     = (fst (waitLoop net maxAttempts (attempt + 1)),
        attempt # snd (waitLoop net maxAttempts (attempt + 1)))"
  by (subst waitLoop.simps) (simp add: split_beta)

lemma waitLoop_waited:
  "attempt \<le> maxAttempts \<Longrightarrow> tryBlock (net attempt) = Waited \<Longrightarrow>
   waitLoop net maxAttempts attempt
     = (fst (waitLoop net maxAttempts (attempt + 1)),
        attempt # snd (waitLoop net maxAttempts (attempt + 1)))"
  by (subst waitLoop.simps) (simp add: split_beta)

lemma waitLoop_cases:
  "waitLoop net maxAttempts attempt = (Rejected ''Max polling attempts reached'', []) \<and> maxAttempts < attempt
   \<or> (\<exists>r. waitLoop net maxAttempts attempt = (r, [attempt])) \<and> attempt \<le> maxAttempts
   \<or> waitLoop net maxAttempts attempt
        = (fst (waitLoop net maxAttempts (attempt + 1)), attempt # snd (waitLoop net maxAttempts (attempt + 1)))
      \<and> attempt \<le> maxAttempts"
proof (cases "attempt \<le> maxAttempts")
  case False
  then show ?thesis using waitLoop_done [of attempt maxAttempts net] by simp
next
  case le: True
  show ?thesis
  proof (cases "tryBlock (net attempt)")
    case (Returned u)
    with le show ?thesis using waitLoop_returned by blast
  next
    case Waited
    with le show ?thesis using waitLoop_waited by blast
  next
    case (Thrown m)
    show ?thesis
    proof (cases "includesStr m ''failed'' \<or> includesStr m ''timed out'' \<or> attempt = maxAttempts")
      case True
      with le Thrown show ?thesis using waitLoop_thrown_stop by blast
    next
      case False
      with le Thrown show ?thesis using waitLoop_thrown_retry [of attempt maxAttempts net m] by blast
    qed
  qed
qed


lemma waitLoop_failure_stops:
  assumes "k \<in> set (snd (waitLoop net maxAttempts attempt))"
    and "net k = AxiosData 0 msg status"
    and "generateStatus status = FAILED \<or> generateStatus status = TIMEOUT"
  shows "waitLoop net maxAttempts attempt = (Rejected (failureMessage status), [attempt..k])"
  using assms(1)
proof (induction n \<equiv> "nat (maxAttempts + 1 - attempt)" arbitrary: attempt)
  case 0
  then have "\<not> attempt \<le> maxAttempts" by simp
  then have "snd (waitLoop net maxAttempts attempt) = []" by (simp add: waitLoop_done)
  with "0.prems" show ?case by simp
next
  case (Suc n)
  then have le: "attempt \<le> maxAttempts" by simp
  show ?case
  proof (cases "k = attempt")
    case True
    have "tryBlock (net attempt) = Thrown (failureMessage status)"
      using assms(2,3) True tryBlock_failure by blast
    then have "waitLoop net maxAttempts attempt = (Rejected (failureMessage status), [attempt])"
      using le failureMessage_keyword [OF assms(3)] waitLoop_thrown_stop by blast
    with True show ?thesis by simp
  next
    case False
    from waitLoop_cases [of net maxAttempts attempt] le Suc.prems False
    have step: "waitLoop net maxAttempts attempt
        = (fst (waitLoop net maxAttempts (attempt + 1)), attempt # snd (waitLoop net maxAttempts (attempt + 1)))"
      by auto
    with Suc.prems False have mem: "k \<in> set (snd (waitLoop net maxAttempts (attempt + 1)))" by simp
    have "n = nat (maxAttempts + 1 - (attempt + 1))" using Suc.hyps(2) by simp
    then have rec: "waitLoop net maxAttempts (attempt + 1) = (Rejected (failureMessage status), [attempt + 1..k])"
      using Suc.hyps(1) mem by blast
    with mem have "attempt + 1 \<le> k" by simp
    then have "[attempt..k] = attempt # [attempt + 1..k]" by (simp add: upto_rec1)
    with step rec show ?thesis by simp
  qed
qed

text \<open>
  Claim C2. Whenever a status query of a polling run is answered by a payload (code 0)
  whose status is Failed or Timeout, at whatever attempt \<open>k\<close> and with whatever attempt
  budget, the queries of the run are exactly those of attempts 1 to \<open>k\<close>, so none follows,
  and the run is rejected with the error \<open>Image generation failed: reason\<close> (or
  \<open>timed out\<close>), where the reason is the reported \<open>failReason\<close>, or \<open>Unknown reason\<close>
  when the payload reports none.
\<close>

theorem failed_or_timeout_stops_polling:
  assumes "k \<in> set (snd (waitAppResult net maxAttempts))"
    and "net k = AxiosData 0 msg status"
    and "generateStatus status = FAILED \<or> generateStatus status = TIMEOUT"
  shows "waitAppResult net maxAttempts
     = (Rejected (''Image generation ''
                  @ (if generateStatus status = FAILED then ''failed'' else ''timed out'')
                  @ '': ''
                  @ (case failReason status of
                       None \<Rightarrow> ''Unknown reason''
                     | Some r \<Rightarrow> if r = [] then ''Unknown reason'' else r)),
        [1..k])"
  using waitLoop_failure_stops [of k net maxAttempts 1 msg status] assms
  unfolding waitAppResult_def failureMessage_def by simp

lemma run_failedAtTwo:
  "waitAppResult netFailedAtTwo 60 = (Rejected ''Image generation failed: NSFW content'', [1, 2])"
  by (simp add: waitAppResult_def waitLoop.simps netFailedAtTwo_def tryBlock_def getComfyStatus_def
        SUCCESS_def FAILED_def TIMEOUT_def)

theorem failed_or_timeout_stops_polling_witness:
  "2 \<in> set (snd (waitAppResult netFailedAtTwo 60))
   \<and> netFailedAtTwo 2
       = AxiosData 0 ''ok'' \<lparr>generateStatus = 6, images = None, failReason = Some ''NSFW content''\<rparr>
   \<and> waitAppResult netFailedAtTwo 60
       = (Rejected ''Image generation failed: NSFW content'', [1, 2])"
proof -
  have h1: "2 \<in> set (snd (waitAppResult netFailedAtTwo 60))" by (simp add: run_failedAtTwo)
  have h2: "netFailedAtTwo 2
       = AxiosData 0 ''ok'' \<lparr>generateStatus = 6, images = None, failReason = Some ''NSFW content''\<rparr>"
    by (simp add: netFailedAtTwo_def)
  have h3: "generateStatus \<lparr>generateStatus = 6, images = None, failReason = Some ''NSFW content''\<rparr> = FAILED
     \<or> generateStatus \<lparr>generateStatus = 6, images = None, failReason = Some ''NSFW content''\<rparr> = TIMEOUT"
    by (simp add: FAILED_def)
  show ?thesis
    using failed_or_timeout_stops_polling [OF h1 h2 h3] h1 h2 by (simp add: FAILED_def upto.simps)
qed

lemmas poll_eval = waitAppResult_def waitLoop.simps tryBlock_def getComfyStatus_def
  SUCCESS_def FAILED_def TIMEOUT_def

text \<open>
  Claim C3. Once a terminal status has been observed the poller should send no further
  status query, and a Success payload with a missing or empty result list should be an
  error that ends the run. The code does not do this for the empty Success: the Error
  thrown at line 401 is caught by the \<open>catch\<close> of the same loop, its message contains
  neither \<open>failed\<close> nor \<open>timed out\<close>, and the loop sleeps and polls again. In the run
  below the first reply is a Success with no image and the second a Success with one: the
  poller sends a second query and resolves with the second reply's URL.
\<close>

theorem empty_success_is_polled_again:
  "terminalReply (netEmptySuccessThenImage 1)
   \<and> waitAppResult netEmptySuccessThenImage 60 = (Resolved ''https://cdn.example/out.png'', [1, 2])"
  by (simp add: poll_eval netEmptySuccessThenImage_def terminalReply_def)

lemma plain_errors_are_retried:
  assumes "attempt \<le> maxAttempts"
    and "\<forall>k. attempt \<le> k \<and> k < maxAttempts \<longrightarrow>
           (\<exists>m. tryBlock (net k) = Thrown m \<and> \<not> includesStr m ''failed''
                \<and> \<not> includesStr m ''timed out'')"
    and "tryBlock (net maxAttempts) = Returned u"
  shows "waitLoop net maxAttempts attempt = (Resolved u, [attempt..maxAttempts])"
  using assms(1,2)
proof (induction n \<equiv> "nat (maxAttempts - attempt)" arbitrary: attempt)
  case 0
  then have "attempt = maxAttempts" by simp
  with assms(3) show ?case by (simp add: waitLoop_returned)
next
  case (Suc n)
  then have lt: "attempt < maxAttempts" by simp
  with Suc.prems(2) obtain m where m: "tryBlock (net attempt) = Thrown m"
    "\<not> includesStr m ''failed''" "\<not> includesStr m ''timed out''" by blast
  have "n = nat (maxAttempts - (attempt + 1))" using Suc.hyps(2) by simp
  moreover have "attempt + 1 \<le> maxAttempts" using lt by simp
  moreover have "\<forall>k. attempt + 1 \<le> k \<and> k < maxAttempts \<longrightarrow>
           (\<exists>m. tryBlock (net k) = Thrown m \<and> \<not> includesStr m ''failed''
                \<and> \<not> includesStr m ''timed out'')" using Suc.prems(2) by simp
  ultimately have "waitLoop net maxAttempts (attempt + 1) = (Resolved u, [attempt + 1..maxAttempts])"
    by (rule Suc.hyps(1))
  moreover have "waitLoop net maxAttempts attempt
     = (fst (waitLoop net maxAttempts (attempt + 1)),
        attempt # snd (waitLoop net maxAttempts (attempt + 1)))"
    using m lt by (intro waitLoop_thrown_retry) simp_all
  moreover have "[attempt..maxAttempts] = attempt # [attempt + 1..maxAttempts]"
    using lt by (simp add: upto_rec1)
  ultimately show ?case by simp
qed

lemma network_errors_then_success:
  "waitAppResult netNetworkErrorUntil60 60 = (Resolved ''https://cdn.example/out.png'', [1..60])"
  unfolding waitAppResult_def
proof (rule plain_errors_are_retried)
  show "(1::int) \<le> 60" by simp
  show "\<forall>k. 1 \<le> k \<and> k < 60 \<longrightarrow>
           (\<exists>m. tryBlock (netNetworkErrorUntil60 k) = Thrown m \<and> \<not> includesStr m ''failed''
                \<and> \<not> includesStr m ''timed out'')"
    by (simp add: netNetworkErrorUntil60_def tryBlock_def getComfyStatus_def)
  show "tryBlock (netNetworkErrorUntil60 60) = Returned ''https://cdn.example/out.png''"
    by (simp add: netNetworkErrorUntil60_def tryBlock_def getComfyStatus_def SUCCESS_def)
qed

text \<open>
  Claim C4. Errors of the status call itself should be retried up to the attempt ceiling,
  so that 59 failed calls followed by a Success at attempt 60 give that result. The code
  retries such an error only when its message contains neither \<open>failed\<close> nor
  \<open>timed out\<close> (\<open>plain_errors_are_retried\<close>, and \<open>network_errors_then_success\<close> for 59
  network errors). An error of the call whose message contains one of them ends the run
  at once: the rejection of the HTTP client for a 502 answer
  (\<open>Request failed with status code 502\<close>), and the Error that \<open>getComfyStatus\<close> itself
  throws for a reply with a non-zero code (\<open>Query failed: ...\<close>). In both runs below the
  reply to attempt 60 is a Success with an image; the poller stops after the first query.
\<close>

theorem error_with_failed_in_message_is_not_retried:
  "waitAppResult netBadGatewayUntil60 60 = (Rejected ''Request failed with status code 502'', [1])
   \<and> waitAppResult netBusyUntil60 60 = (Rejected ''Query failed: busy'', [1])"
  by (simp add: poll_eval netBadGatewayUntil60_def netBusyUntil60_def)

lemma getComfyStatus_Inl:
  "getComfyStatus reply = Inl m \<Longrightarrow> tryBlock reply = Thrown m"
  by (simp add: tryBlock_def)

lemma nonterminal_Inr:
  "getComfyStatus reply = Inr status \<Longrightarrow> \<not> terminalReply reply \<Longrightarrow> tryBlock reply = Waited"
  by (simp add: tryBlock_def terminalReply_def)

lemma waitLoop_exhausted:
  assumes "\<forall>k. attempt \<le> k \<and> k \<le> maxAttempts \<longrightarrow> \<not> terminalReply (net k)"
    and "snd (waitLoop net maxAttempts attempt) = [attempt..maxAttempts]"
  shows "fst (waitLoop net maxAttempts attempt)
     = Rejected (if attempt \<le> maxAttempts then
                   (case getComfyStatus (net maxAttempts) of
                      Inl m \<Rightarrow> m | Inr status \<Rightarrow> ''Max polling attempts reached'')
                 else ''Max polling attempts reached'')"
  using assms
proof (induction n \<equiv> "nat (maxAttempts + 1 - attempt)" arbitrary: attempt)
  case 0
  then have "\<not> attempt \<le> maxAttempts" by simp
  then show ?case by (simp add: waitLoop_done)
next
  case (Suc n)
  then have le: "attempt \<le> maxAttempts" by simp
  then have upto: "[attempt..maxAttempts] = attempt # [attempt + 1..maxAttempts]" by (simp add: upto_rec1)
  have nt: "\<not> terminalReply (net attempt)" using Suc.prems(1) le by simp
  have n: "n = nat (maxAttempts + 1 - (attempt + 1))" using Suc.hyps(2) by simp
  have rest: "\<forall>k. attempt + 1 \<le> k \<and> k \<le> maxAttempts \<longrightarrow> \<not> terminalReply (net k)"
    using Suc.prems(1) by simp
  have continue: "fst (waitLoop net maxAttempts attempt)
     = Rejected (if attempt \<le> maxAttempts then
                   (case getComfyStatus (net maxAttempts) of
                      Inl m \<Rightarrow> m | Inr status \<Rightarrow> ''Max polling attempts reached'')
                 else ''Max polling attempts reached'')"
    if step: "waitLoop net maxAttempts attempt
        = (fst (waitLoop net maxAttempts (attempt + 1)), attempt # snd (waitLoop net maxAttempts (attempt + 1)))"
      and last: "attempt = maxAttempts \<Longrightarrow> \<exists>status. getComfyStatus (net attempt) = Inr status"
  proof -
    from step Suc.prems(2) upto
    have "snd (waitLoop net maxAttempts (attempt + 1)) = [attempt + 1..maxAttempts]" by simp
    with Suc.hyps(1) [OF n rest]
    have rec: "fst (waitLoop net maxAttempts (attempt + 1))
      = Rejected (if attempt + 1 \<le> maxAttempts then
                   (case getComfyStatus (net maxAttempts) of
                      Inl m \<Rightarrow> m | Inr status \<Rightarrow> ''Max polling attempts reached'')
                 else ''Max polling attempts reached'')" by simp
    show ?thesis
    proof (cases "attempt = maxAttempts")
      case True
      with last obtain status where "getComfyStatus (net maxAttempts) = Inr status" by blast
      with True step rec show ?thesis by simp
    next
      case False
      with le have "attempt + 1 \<le> maxAttempts" by simp
      with le step rec show ?thesis by simp
    qed
  qed
  show ?case
  proof (cases "getComfyStatus (net attempt)")
    case (Inr status)
    then have "tryBlock (net attempt) = Waited" using nt by (rule nonterminal_Inr)
    then have "waitLoop net maxAttempts attempt
        = (fst (waitLoop net maxAttempts (attempt + 1)), attempt # snd (waitLoop net maxAttempts (attempt + 1)))"
      using le waitLoop_waited by blast
    then show ?thesis using Inr by (intro continue) auto
  next
    case (Inl m)
    then have thrown: "tryBlock (net attempt) = Thrown m" by (rule getComfyStatus_Inl)
    show ?thesis
    proof (cases "includesStr m ''failed'' \<or> includesStr m ''timed out'' \<or> attempt = maxAttempts")
      case True
      then have stop: "waitLoop net maxAttempts attempt = (Rejected m, [attempt])"
        using le thrown waitLoop_thrown_stop by blast
      with Suc.prems(2) upto have "[attempt + 1..maxAttempts] = []" by simp
      with le have "attempt = maxAttempts" by simp
      with stop Inl show ?thesis by simp
    next
      case False
      then have "waitLoop net maxAttempts attempt
        = (fst (waitLoop net maxAttempts (attempt + 1)), attempt # snd (waitLoop net maxAttempts (attempt + 1)))"
        using le thrown waitLoop_thrown_retry [of attempt maxAttempts net m] by blast
      then show ?thesis using False by (intro continue) auto
    qed
  qed
qed

text \<open>
  Claim C5, as stated, fails: when the last attempt's status query itself fails, the run
  is rejected with that query's error, not with the loop's message. With one attempt and
  a network error, no poll reaches a terminal state, the ceiling is used up, and the
  error is \<open>Network Error\<close>.
\<close>

theorem last_attempt_error_counterexample:
  "noTerminalPoll netNetworkError 1
   \<and> snd (waitAppResult netNetworkError 1) = [1..1]
   \<and> fst (waitAppResult netNetworkError 1) = Rejected ''Network Error''
   \<and> fst (waitAppResult netNetworkError 1) \<noteq> Rejected ''Max polling attempts reached''"
  by (simp add: poll_eval netNetworkError_def noTerminalPoll_def terminalReply_def upto.simps)

text \<open>
  Claim C5, amended. For every polling run that uses up the attempt ceiling (a status
  query was sent at each attempt 1 to \<open>maxAttempts\<close>) without any poll reaching a
  terminal state, the poller never resolves with a success value; it is rejected with
  \<open>Max polling attempts reached\<close> when the last attempt's query returned a payload, and
  with the error of that query when the last attempt's query failed.
\<close>

theorem exhausted_run_is_rejected:
  assumes "noTerminalPoll net maxAttempts"
    and "snd (waitAppResult net maxAttempts) = [1..maxAttempts]"
  shows "fst (waitAppResult net maxAttempts) = Rejected (lastAttemptError net maxAttempts)
    \<and> \<not> isResolved (fst (waitAppResult net maxAttempts))"
proof -
  from assms(1) have "\<forall>k. 1 \<le> k \<and> k \<le> maxAttempts \<longrightarrow> \<not> terminalReply (net k)"
    by (simp add: noTerminalPoll_def list_all_iff)
  then have "fst (waitLoop net maxAttempts 1) = Rejected (lastAttemptError net maxAttempts)"
    using assms(2) waitLoop_exhausted [of 1 maxAttempts net]
    unfolding waitAppResult_def lastAttemptError_def by simp
  then show ?thesis by (simp add: waitAppResult_def)
qed

theorem exhausted_run_is_rejected_witness:
  "noTerminalPoll netAlwaysProcessing 3
   \<and> snd (waitAppResult netAlwaysProcessing 3) = [1..3]
   \<and> fst (waitAppResult netAlwaysProcessing 3) = Rejected ''Max polling attempts reached''
   \<and> \<not> isResolved (fst (waitAppResult netAlwaysProcessing 3))"
proof -
  have h1: "noTerminalPoll netAlwaysProcessing 3"
    by (simp add: noTerminalPoll_def terminalReply_def getComfyStatus_def netAlwaysProcessing_def
          upto.simps SUCCESS_def FAILED_def TIMEOUT_def)
  have h2: "snd (waitAppResult netAlwaysProcessing 3) = [1..3]"
    by (simp add: poll_eval netAlwaysProcessing_def upto.simps)
  have e: "lastAttemptError netAlwaysProcessing 3 = ''Max polling attempts reached''"
    by (simp add: lastAttemptError_def netAlwaysProcessing_def getComfyStatus_def)
  show ?thesis
    using exhausted_run_is_rejected [OF h1 h2] h1 h2 by (simp add: e)
qed

section \<open>JobSubmitter: properties\<close>

lemma truthy_getProp_obj: "truthy (getProp v k) \<Longrightarrow> \<exists>kvs. v = JObj kvs"
  by (cases v) simp_all

lemma rewriteImage_bare_key:
  assumes "image190 params = JStr s" and "s \<noteq> []" and "\<not> startsWith s ''http''"
  shows "\<exists>params'. rewriteImage params = Inr params' \<and> image190 params' = JStr (ossBaseUrl @ ''/'' @ s)"
proof -
  from assms(1) have t: "truthy (node190 params)" "truthy (getProp (node190 params) ''inputs'')"
    and img: "getProp (getProp (node190 params) ''inputs'') ''image'' = JStr s"
    by (auto simp: image190_def split: if_splits)
  from t(2) obtain nkvs where node: "node190 params = JObj nkvs" using truthy_getProp_obj by blast
  from img assms(2) have "truthy (getProp (getProp (node190 params) ''inputs'') ''image'')" by simp
  then obtain ikvs where inputs: "getProp (node190 params) ''inputs'' = JObj ikvs"
    using truthy_getProp_obj by blast
  define node' where "node' = setProp (node190 params) ''inputs''
      (setProp (getProp (node190 params) ''inputs'') ''image'' (JStr (ossBaseUrl @ ''/'' @ s)))"
  define params' where "params' = params\<lparr>generateParams := AList.update ''190'' node' (generateParams params)\<rparr>"
  have r: "rewriteImage params = Inr params'"
    using t img assms(2,3) unfolding rewriteImage_def params'_def node'_def
    by (simp add: Let_def)
  have n: "node190 params' = node'"
    by (simp add: node190_def params'_def update_conv')
  have node'_obj: "node' = JObj (AList.update ''inputs'' (JObj (AList.update ''image'' (JStr (ossBaseUrl @ ''/'' @ s)) ikvs)) nkvs)"
    unfolding node'_def inputs unfolding node by simp
  have "image190 params' = JStr (ossBaseUrl @ ''/'' @ s)"
    unfolding image190_def n node'_obj by (simp add: update_conv')
  with r show ?thesis by blast
qed

lemmas runComfy_eval = runComfy_def rewriteImage_def image190_def node190_def submittedImages_def
  paramsWithImage_def Let_def ossBaseUrl_def

text \<open>
  Claim C6, as stated, fails for the empty string, which is a string that does not start
  with \<open>http\<close>: the guard of line 263 tests the image reference for truthiness, so an
  empty reference is submitted unchanged.
\<close>

theorem empty_image_reference_counterexample:
  "image190 (paramsWithImage []) = JStr []
   \<and> \<not> startsWith [] ''http''
   \<and> submittedImages
        (fst (runComfy fixedDigest liblibAIService fixedEntropy comfyAccepted (paramsWithImage [])))
       = [JStr []]
   \<and> JStr [] \<noteq> JStr (ossBaseUrl @ ''/'' @ [])"
  by (simp add: runComfy_eval)

text \<open>
  Claim C6, amended. For every submission whose image reference (of node 190) is a
  non-empty string that does not start with \<open>http\<close>, exactly one request is sent and its
  payload holds, in place of the key, the storage base address, a \<open>/\<close> and the key; this
  is never the bare key.
\<close>

theorem bare_key_becomes_full_url:
  assumes "image190 params = JStr s" and "s \<noteq> []" and "\<not> startsWith s ''http''"
  shows "submittedImages (fst (runComfy hmacSHA1 svc ent post params)) = [JStr (ossBaseUrl @ ''/'' @ s)]
     \<and> JStr (ossBaseUrl @ ''/'' @ s) \<noteq> JStr s"
proof -
  from rewriteImage_bare_key [OF assms] obtain params' where
    "rewriteImage params = Inr params'" and "image190 params' = JStr (ossBaseUrl @ ''/'' @ s)" by blast
  then have "submittedImages (fst (runComfy hmacSHA1 svc ent post params)) = [JStr (ossBaseUrl @ ''/'' @ s)]"
    by (simp add: runComfy_def submittedImages_def Let_def)
  moreover have "length (ossBaseUrl @ ''/'' @ s) \<noteq> length s" by simp
  then have "ossBaseUrl @ ''/'' @ s \<noteq> s" by (metis)
  ultimately show ?thesis by simp
qed

theorem bare_key_becomes_full_url_witness:
  "image190 (paramsWithImage ''abc123.png'') = JStr ''abc123.png''
   \<and> ''abc123.png'' \<noteq> []
   \<and> \<not> startsWith ''abc123.png'' ''http''
   \<and> submittedImages
        (fst (runComfy fixedDigest liblibAIService fixedEntropy comfyAccepted (paramsWithImage ''abc123.png'')))
       = [JStr ''https://liblibai-airship-temp.oss-cn-beijing.aliyuncs.com/abc123.png'']"
proof -
  have h1: "image190 (paramsWithImage ''abc123.png'') = JStr ''abc123.png''"
    by (simp add: image190_def node190_def paramsWithImage_def)
  have h2: "''abc123.png'' \<noteq> []" by simp
  have h3: "\<not> startsWith ''abc123.png'' ''http''" by simp
  show ?thesis
    using bare_key_becomes_full_url [OF h1 h2 h3, of fixedDigest liblibAIService fixedEntropy comfyAccepted]
      h1 h3
    by (simp add: ossBaseUrl_def)
qed

section \<open>Uploader: properties\<close>

lemma split_not_Nil: "split d s \<noteq> []"
  by (induction s) (auto split: list.splits)

lemma pop_split: "pop (split d s) = Some (last (split d s))"
  by (simp add: pop_def split_not_Nil)

lemma split_no_separator: "d \<notin> set s \<Longrightarrow> split d s = [s]"
  by (induction s) auto

lemma split_append: "split d (b @ d # e) = split d b @ split d e"
proof (induction b)
  case Nil
  show ?case by simp
next
  case (Cons c b)
  obtain w ws where "split d b = w # ws" using split_not_Nil [of d b] by (cases "split d b") auto
  with Cons show ?case by simp
qed

lemma last_split_append: "d \<notin> set e \<Longrightarrow> last (split d (b @ d # e)) = e"
  by (simp add: split_append split_not_Nil split_no_separator)


lemmas finalSegment_eval = finalSegment_def toLowerCase_def toLowerChar_def

lemma getUploadSignature_calls:
  "requestedExtensions (fst (getUploadSignature hmacSHA1 svc ent post b e)) = [e]
   \<and> uploadedFiles (fst (getUploadSignature hmacSHA1 svc ent post b e)) = []"
  by (simp add: getUploadSignature_def Let_def)

lemma getUploadSignature_granted:
  "authorizationGranted post (fst (getUploadSignature hmacSHA1 svc ent post b e))
     = (\<exists>sd. snd (getUploadSignature hmacSHA1 svc ent post b e) = Inr sd)"
  by (auto simp: getUploadSignature_def Let_def split: axios_reply.splits)

lemma authorizationGranted_append:
  "authorizationGranted post (xs @ ys)
     = (authorizationGranted post xs \<and> authorizationGranted post ys)"
  by (induction post xs rule: authorizationGranted.induct) simp_all

lemma uploadToOSS_granted:
  "authorizationGranted post (fst (uploadToOSS fetch fileBuffer sd f))"
  by (simp add: uploadToOSS_def Let_def)

lemma uploadToOSS_calls:
  assumes "e = ''jpg'' \<or> e = ''png''"
  shows "requestedExtensions (fst (uploadToOSS fetch fileBuffer sd (b @ ''.'' @ e))) = []
   \<and> uploadedFiles (fst (uploadToOSS fetch fileBuffer sd (b @ ''.'' @ e)))
       = [(b @ ''.'' @ e, if e = ''jpg'' then ''image/jpeg'' else ''image/png'')]"
proof -
  have "CHR ''.'' \<notin> set e" using assms by auto
  then have "last (split (CHR ''.'') (b @ CHR ''.'' # e)) = e" by (rule last_split_append)
  moreover have "toLowerCase e = e" using assms by (auto simp: toLowerCase_def toLowerChar_def)
  ultimately show ?thesis
    using assms by (auto simp: uploadToOSS_def Let_def pop_split)
qed

lemma requestedExtensions_append:
  "requestedExtensions (xs @ ys) = requestedExtensions xs @ requestedExtensions ys"
  by (induction xs rule: requestedExtensions.induct) simp_all

lemma uploadedFiles_append:
  "uploadedFiles (xs @ ys) = uploadedFiles xs @ uploadedFiles ys"
  by (induction xs rule: uploadedFiles.induct) simp_all

text \<open>What an accepted upload does, in terms of the two steps.\<close>

lemma uploadFile_accepted:
  assumes "ext = (if finalSegment filename = [] then ''png'' else finalSegment filename)"
    and "ext \<in> set [''jpg'', ''jpeg'', ''png'']"
    and "e = (if ext = ''jpeg'' then ''jpg'' else ext)"
  shows "uploadFile hmacSHA1 svc ent post fetch fileBuffer filename =
     (case getUploadSignature hmacSHA1 svc ent post (baseName filename) e of
        (calls1, Inl err) \<Rightarrow> (calls1, Inl err)
      | (calls1, Inr signatureData) \<Rightarrow>
          (case uploadToOSS fetch fileBuffer signatureData (baseName filename @ ''.'' @ e) of
             (calls2, Inl err) \<Rightarrow> (calls1 @ calls2, Inl err)
           | (calls2, Inr k) \<Rightarrow>
               (calls1 @ calls2, Inr \<lparr>uploaded_key = k, uploaded_ossBaseUrl = ossBaseUrl\<rparr>)))"
  using assms unfolding uploadFile_def finalSegment_def pop_split baseName_def
  by (auto simp: Let_def)

lemma uploadFile_accepted_calls:
  assumes "ext = (if finalSegment filename = [] then ''png'' else finalSegment filename)"
    and "ext \<in> set [''jpg'', ''jpeg'', ''png'']"
    and "e = (if ext = ''jpeg'' then ''jpg'' else ext)"
  shows "requestedExtensions (fst (uploadFile hmacSHA1 svc ent post fetch fileBuffer filename)) = [e]"
    and "uploadedFiles (fst (uploadFile hmacSHA1 svc ent post fetch fileBuffer filename))
          = (if authorizationGranted post (fst (uploadFile hmacSHA1 svc ent post fetch fileBuffer filename))
             then [(baseName filename @ ''.'' @ e, if e = ''jpg'' then ''image/jpeg'' else ''image/png'')]
             else [])"
    and "snd (uploadFile hmacSHA1 svc ent post fetch fileBuffer filename) \<noteq> Inl FileTypeNotAllowed"
proof -
  have e: "e = ''jpg'' \<or> e = ''png''" using assms(2,3) by auto
  note u = uploadFile_accepted [OF assms, of hmacSHA1 svc ent post fetch fileBuffer]
  note g = getUploadSignature_calls [of hmacSHA1 svc ent post "baseName filename" e]
  note gr = getUploadSignature_granted [of post hmacSHA1 svc ent "baseName filename" e]
  obtain c1 r1 where r1: "getUploadSignature hmacSHA1 svc ent post (baseName filename) e = (c1, r1)"
    by (cases "getUploadSignature hmacSHA1 svc ent post (baseName filename) e")
  have r1_err: "r1 \<noteq> Inl FileTypeNotAllowed"
    using r1 by (auto simp: getUploadSignature_def Let_def split: axios_reply.splits if_splits)
  show "requestedExtensions (fst (uploadFile hmacSHA1 svc ent post fetch fileBuffer filename)) = [e]"
  proof (cases r1)
    case (Inl err)
    with u r1 g show ?thesis by simp
  next
    case (Inr sd)
    obtain c2 r2 where r2: "uploadToOSS fetch fileBuffer sd (baseName filename @ ''.'' @ e) = (c2, r2)"
      by (cases "uploadToOSS fetch fileBuffer sd (baseName filename @ ''.'' @ e)")
    with uploadToOSS_calls [OF e, of fetch fileBuffer sd "baseName filename"]
    have "requestedExtensions c2 = []" by simp
    with u r1 r2 g Inr show ?thesis
      by (cases r2) (simp_all add: requestedExtensions_append)
  qed
  show "uploadedFiles (fst (uploadFile hmacSHA1 svc ent post fetch fileBuffer filename))
          = (if authorizationGranted post (fst (uploadFile hmacSHA1 svc ent post fetch fileBuffer filename))
             then [(baseName filename @ ''.'' @ e, if e = ''jpg'' then ''image/jpeg'' else ''image/png'')]
             else [])"
  proof (cases r1)
    case (Inl err)
    with r1 gr have "\<not> authorizationGranted post c1" by simp
    with u r1 g Inl show ?thesis by simp
  next
    case (Inr sd)
    with r1 gr have g1: "authorizationGranted post c1" by simp
    obtain c2 r2 where r2: "uploadToOSS fetch fileBuffer sd (baseName filename @ ''.'' @ e) = (c2, r2)"
      by (cases "uploadToOSS fetch fileBuffer sd (baseName filename @ ''.'' @ e)")
    with uploadToOSS_calls [OF e, of fetch fileBuffer sd "baseName filename"]
    have f2: "uploadedFiles c2
        = [(baseName filename @ ''.'' @ e, if e = ''jpg'' then ''image/jpeg'' else ''image/png'')]"
      by simp
    from r2 uploadToOSS_granted [of post fetch fileBuffer sd "baseName filename @ ''.'' @ e"]
    have g2: "authorizationGranted post c2" by simp
    from u r1 r2 g Inr g1 g2 f2 show ?thesis
      by (cases r2) (simp_all add: uploadedFiles_append authorizationGranted_append)
  qed
  show "snd (uploadFile hmacSHA1 svc ent post fetch fileBuffer filename) \<noteq> Inl FileTypeNotAllowed"
  proof (cases r1)
    case (Inl err)
    with u r1 r1_err show ?thesis by simp
  next
    case (Inr sd)
    obtain c2 r2 where r2: "uploadToOSS fetch fileBuffer sd (baseName filename @ ''.'' @ e) = (c2, r2)"
      by (cases "uploadToOSS fetch fileBuffer sd (baseName filename @ ''.'' @ e)")
    then have "r2 \<noteq> Inl FileTypeNotAllowed"
      by (auto simp: uploadToOSS_def Let_def split: fetch_reply.splits if_splits)
    with u r1 r2 Inr show ?thesis by (cases r2) simp_all
  qed
qed

lemma signatureGranted_always: "authorizationGranted signatureGranted calls"
  by (induction signatureGranted calls rule: authorizationGranted.induct)
     (simp_all add: signatureGranted_def)

lemma uploadFile_rejects:
  assumes "ext = (if finalSegment filename = [] then ''png'' else finalSegment filename)"
    and "ext \<notin> set [''jpg'', ''jpeg'', ''png'']"
  shows "uploadFile hmacSHA1 svc ent post fetch fileBuffer filename = ([], Inl FileTypeNotAllowed)"
  using assms unfolding uploadFile_def finalSegment_def pop_split by (simp add: Let_def)

text \<open>
  Claim C7, as stated, fails for a file name whose final segment is empty: the empty
  extension is outside the allow-list, yet \<open>photo.\<close> is not rejected; the extension
  defaults to \<open>png\<close> (line 216), the authorization is requested and the file is uploaded.
\<close>

theorem disallowed_extension_counterexample:
  "finalSegment ''photo.'' \<notin> set [''jpg'', ''jpeg'', ''png'']
   \<and> requestedExtensions
        (fst (uploadFile fixedDigest liblibAIService fixedEntropy signatureGranted ossStored [] ''photo.''))
       = [''png'']
   \<and> uploadedFiles
        (fst (uploadFile fixedDigest liblibAIService fixedEntropy signatureGranted ossStored [] ''photo.''))
       = [(''photo.png'', ''image/png'')]
   \<and> snd (uploadFile fixedDigest liblibAIService fixedEntropy signatureGranted ossStored [] ''photo.'')
       = Inr \<lparr>uploaded_key = ''tmp/0001'', uploaded_ossBaseUrl = ossBaseUrl\<rparr>"
  by (simp add: finalSegment_eval uploadFile_def pop_def first_def getUploadSignature_def
        uploadToOSS_def signatureGranted_def ossStored_def Let_def)

text \<open>
  Claim C7, amended. For every file upload, if the final \<open>.\<close>-separated segment of the
  file name, lower-cased, is not empty and is none of \<open>jpg\<close>, \<open>jpeg\<close>, \<open>png\<close>, the
  Uploader raises the validation error and makes no network call: neither the
  authorization request nor the storage upload.
\<close>

theorem disallowed_extension_rejected:
  assumes "finalSegment filename \<noteq> []"
    and "finalSegment filename \<notin> set [''jpg'', ''jpeg'', ''png'']"
  shows "uploadFile hmacSHA1 svc ent post fetch fileBuffer filename = ([], Inl FileTypeNotAllowed)"
  using assms uploadFile_rejects [of "finalSegment filename" filename] by simp

theorem disallowed_extension_rejected_witness:
  "finalSegment ''photo.GIF'' \<noteq> []
   \<and> finalSegment ''photo.GIF'' \<notin> set [''jpg'', ''jpeg'', ''png'']
   \<and> uploadFile fixedDigest liblibAIService fixedEntropy signatureGranted ossStored [] ''photo.GIF''
       = ([], Inl FileTypeNotAllowed)"
proof -
  have h1: "finalSegment ''photo.GIF'' \<noteq> []" by (simp add: finalSegment_eval)
  have h2: "finalSegment ''photo.GIF'' \<notin> set [''jpg'', ''jpeg'', ''png'']" by (simp add: finalSegment_eval)
  show ?thesis
    using disallowed_extension_rejected [OF h1 h2] h1 h2 by simp
qed

text \<open>
  Claim C8. For every accepted upload (one that passes the validation), the extension
  requested from the authorization endpoint is the canonical form of the file name's
  extension (\<open>jpg\<close> for both \<open>jpeg\<close> and \<open>jpg\<close>, \<open>png\<close> otherwise); when the
  authorization is granted exactly one file is uploaded, under the base name followed by
  \<open>.\<close> and that same extension string, which is the final segment of the uploaded name
  (and nothing is uploaded when it is not granted); in particular \<open>photo.jpeg\<close> and
  \<open>photo.jpg\<close> both request \<open>jpg\<close>.
\<close>

theorem extension_normalized:
  assumes "snd (uploadFile hmacSHA1 svc ent post fetch fileBuffer filename) \<noteq> Inl FileTypeNotAllowed"
  shows "requestedExtensions (fst (uploadFile hmacSHA1 svc ent post fetch fileBuffer filename))
       = [canonicalExtension filename]
     \<and> map fst (uploadedFiles (fst (uploadFile hmacSHA1 svc ent post fetch fileBuffer filename)))
       = (if authorizationGranted post (fst (uploadFile hmacSHA1 svc ent post fetch fileBuffer filename))
          then [baseName filename @ ''.'' @ canonicalExtension filename] else [])
     \<and> pop (split (CHR ''.'') (baseName filename @ ''.'' @ canonicalExtension filename))
       = Some (canonicalExtension filename)
     \<and> canonicalExtension ''photo.jpeg'' = ''jpg''
     \<and> canonicalExtension ''photo.jpg'' = ''jpg''
     \<and> requestedExtensions (fst (uploadFile hmacSHA1 svc ent post fetch fileBuffer ''photo.jpeg'')) = [''jpg'']
     \<and> requestedExtensions (fst (uploadFile hmacSHA1 svc ent post fetch fileBuffer ''photo.jpg'')) = [''jpg'']"
proof -
  define ext where "ext = (if finalSegment filename = [] then ''png'' else finalSegment filename)"
  define e where "e = (if ext = ''jpeg'' then ''jpg'' else ext)"
  have ok: "ext \<in> set [''jpg'', ''jpeg'', ''png'']"
  proof (rule ccontr)
    assume "ext \<notin> set [''jpg'', ''jpeg'', ''png'']"
    with ext_def have "uploadFile hmacSHA1 svc ent post fetch fileBuffer filename = ([], Inl FileTypeNotAllowed)"
      by (rule uploadFile_rejects)
    with assms show False by simp
  qed
  then have canon: "e = canonicalExtension filename"
    unfolding e_def ext_def canonicalExtension_def by (auto split: if_splits)
  from ok have "e = ''jpg'' \<or> e = ''png''" unfolding e_def by auto
  then have "CHR ''.'' \<notin> set e" by auto
  then have seg: "pop (split (CHR ''.'') (baseName filename @ ''.'' @ e)) = Some e"
    by (simp add: pop_split last_split_append)
  note c = uploadFile_accepted_calls [OF ext_def ok e_def, of hmacSHA1 svc ent post fetch fileBuffer]
  have req: "requestedExtensions (fst (uploadFile hmacSHA1 svc ent post fetch fileBuffer filename))
       = [canonicalExtension filename]"
    using c(1) canon by simp
  have files: "map fst (uploadedFiles (fst (uploadFile hmacSHA1 svc ent post fetch fileBuffer filename)))
       = (if authorizationGranted post (fst (uploadFile hmacSHA1 svc ent post fetch fileBuffer filename))
          then [baseName filename @ ''.'' @ canonicalExtension filename] else [])"
    using c(2) canon by simp
  have jpeg: "requestedExtensions (fst (uploadFile hmacSHA1 svc ent post fetch fileBuffer ''photo.jpeg'')) = [''jpg'']"
    by (rule uploadFile_accepted_calls(1) [where ext = "''jpeg''"]) (simp_all add: finalSegment_eval)
  have jpg: "requestedExtensions (fst (uploadFile hmacSHA1 svc ent post fetch fileBuffer ''photo.jpg'')) = [''jpg'']"
    by (rule uploadFile_accepted_calls(1) [where ext = "''jpg''"]) (simp_all add: finalSegment_eval)
  have c1: "canonicalExtension ''photo.jpeg'' = ''jpg''"
    by (simp add: canonicalExtension_def finalSegment_eval)
  have c2: "canonicalExtension ''photo.jpg'' = ''jpg''"
    by (simp add: canonicalExtension_def finalSegment_eval)
  from req files seg canon jpeg jpg c1 c2 show ?thesis by simp
qed

lemma run_photo_JPEG:
  "snd (uploadFile fixedDigest liblibAIService fixedEntropy signatureGranted ossStored [] ''my.photo.JPEG'')
       = Inr \<lparr>uploaded_key = ''tmp/0001'', uploaded_ossBaseUrl = ossBaseUrl\<rparr>"
  by (simp add: finalSegment_eval uploadFile_def pop_def first_def getUploadSignature_def
        uploadToOSS_def signatureGranted_def ossStored_def Let_def)

theorem extension_normalized_witness:
  "snd (uploadFile fixedDigest liblibAIService fixedEntropy signatureGranted ossStored [] ''my.photo.JPEG'')
     \<noteq> Inl FileTypeNotAllowed
   \<and> requestedExtensions
        (fst (uploadFile fixedDigest liblibAIService fixedEntropy signatureGranted ossStored [] ''my.photo.JPEG''))
       = [''jpg'']
   \<and> authorizationGranted signatureGranted
        (fst (uploadFile fixedDigest liblibAIService fixedEntropy signatureGranted ossStored [] ''my.photo.JPEG''))
   \<and> map fst (uploadedFiles
        (fst (uploadFile fixedDigest liblibAIService fixedEntropy signatureGranted ossStored [] ''my.photo.JPEG'')))
       = [''my.jpg'']
   \<and> pop (split (CHR ''.'') ''my.jpg'') = Some ''jpg''"
proof -
  have h: "snd (uploadFile fixedDigest liblibAIService fixedEntropy signatureGranted ossStored [] ''my.photo.JPEG'')
     \<noteq> Inl FileTypeNotAllowed" by (simp add: run_photo_JPEG)
  have b: "baseName ''my.photo.JPEG'' = ''my''" by (simp add: baseName_def first_def)
  have c: "canonicalExtension ''my.photo.JPEG'' = ''jpg''"
    by (simp add: canonicalExtension_def finalSegment_eval)
  show ?thesis
    using extension_normalized [OF h] h
    by (simp add: b c signatureGranted_always)
qed

text \<open>
  Claim C10. For a file name whose final \<open>.\<close>-separated segment is the empty string,
  \<open>uploadFile\<close> does not raise the extension validation error: the extension defaults to
  \<open>png\<close>, which is what the authorization request asks for, and the upload proceeds as
  a png file: when the authorization is granted exactly one file is posted to the storage,
  named with the base name and \<open>.png\<close> and typed \<open>image/png\<close> (nothing is posted when
  the authorization is not granted).
\<close>

theorem empty_final_segment_defaults_to_png:
  assumes "last (split (CHR ''.'') filename) = []"
  shows "snd (uploadFile hmacSHA1 svc ent post fetch fileBuffer filename) \<noteq> Inl FileTypeNotAllowed
     \<and> requestedExtensions (fst (uploadFile hmacSHA1 svc ent post fetch fileBuffer filename)) = [''png'']
     \<and> uploadedFiles (fst (uploadFile hmacSHA1 svc ent post fetch fileBuffer filename))
         = (if authorizationGranted post (fst (uploadFile hmacSHA1 svc ent post fetch fileBuffer filename))
            then [(baseName filename @ ''.png'', ''image/png'')] else [])"
proof -
  have seg: "finalSegment filename = []" using assms by (simp add: finalSegment_def toLowerCase_def)
  have ext: "''png'' = (if finalSegment filename = [] then ''png'' else finalSegment filename)"
    by (simp add: seg)
  have ok: "''png'' \<in> set [''jpg'', ''jpeg'', ''png'']" by simp
  have e: "''png'' = (if ''png'' = ''jpeg'' then ''jpg'' else ''png'')" by simp
  note c = uploadFile_accepted_calls [OF ext ok e, of hmacSHA1 svc ent post fetch fileBuffer]
  from c(1) c(2) c(3) show ?thesis by simp
qed

theorem empty_final_segment_defaults_to_png_witness:
  "last (split (CHR ''.'') ''portrait.'') = []
   \<and> snd (uploadFile fixedDigest liblibAIService fixedEntropy signatureGranted ossStored [] ''portrait.'')
       \<noteq> Inl FileTypeNotAllowed
   \<and> requestedExtensions
        (fst (uploadFile fixedDigest liblibAIService fixedEntropy signatureGranted ossStored [] ''portrait.''))
       = [''png'']
   \<and> authorizationGranted signatureGranted
        (fst (uploadFile fixedDigest liblibAIService fixedEntropy signatureGranted ossStored [] ''portrait.''))
   \<and> uploadedFiles
        (fst (uploadFile fixedDigest liblibAIService fixedEntropy signatureGranted ossStored [] ''portrait.''))
       = [(''portrait.png'', ''image/png'')]"
proof -
  have h: "last (split (CHR ''.'') ''portrait.'') = []" by simp
  have b: "baseName ''portrait.'' = ''portrait''" by (simp add: baseName_def first_def)
  show ?thesis
    using empty_final_segment_defaults_to_png [OF h, of fixedDigest liblibAIService fixedEntropy signatureGranted ossStored "[]"] h
    by (simp add: b signatureGranted_always)
qed

text \<open>The empty file name is uploaded as \<open>image.png\<close>.\<close>

lemma run_empty_filename:
  "requestedExtensions
     (fst (uploadFile fixedDigest liblibAIService fixedEntropy signatureGranted ossStored [] []))
     = [''png'']
   \<and> uploadedFiles
     (fst (uploadFile fixedDigest liblibAIService fixedEntropy signatureGranted ossStored [] []))
     = [(''image.png'', ''image/png'')]"
  by (simp add: finalSegment_eval uploadFile_def pop_def first_def getUploadSignature_def
        uploadToOSS_def signatureGranted_def ossStored_def Let_def)

end
